theory Spec2Isabelle
  imports Complex_Main "HOL-Library.AList"
begin

section \<open>Cells, rows and data frames\<close>

text \<open>
  The job in \<^verbatim>\<open>etl.py\<close> is written against the pandas data frame. A cell of a frame
  is a missing value (\<^verbatim>\<open>NaN\<close>), a whole number (a value of a column of dtype
  \<^verbatim>\<open>int64\<close> or \<^verbatim>\<open>uint64\<close>), a floating-point number (a value of a column of dtype
  \<^verbatim>\<open>float64\<close>, taken as the rational number it stands for; infinities are left out)
  or a string (a value of a column of dtype \<^verbatim>\<open>object\<close>). A row is the list of its named
  cells in column order; a frame is the list of its rows in file order, each with its
  index label.
\<close>

datatype cell = NaN | Num int | Flt rat | Str string

type_synonym row = "(string \<times> cell) list"

type_synonym frame = "(nat \<times> row) list"

text \<open>Python exceptions that the modelled statements can raise.\<close>

datatype exn =
    ValueError
  | OverflowError
  | AttributeError
  | FileNotFoundError
  | NoCredentialsError
  | ClientError
  | NameError string

text \<open>
  \<^verbatim>\<open>df[k]\<close> read row by row. Every frame that the transform reads has been through the
  column selection, which creates each of the thirteen columns, so the column is there;
  a column that is not there reads as missing.
\<close>

definition col :: "string \<Rightarrow> row \<Rightarrow> cell" where
  "col k r = (case map_of r k of None \<Rightarrow> NaN | Some v \<Rightarrow> v)"

text \<open>\<^verbatim>\<open>df.index\<close>: the labels of the rows, in order.\<close>

definition index :: "frame \<Rightarrow> nat list" where
  "index df = map fst df"

text \<open>\<^verbatim>\<open>pd.DataFrame(df, columns=cs)\<close>: the named columns in the given order; a name
  that the frame does not have becomes a column of missing values.\<close>

definition select_columns :: "string list \<Rightarrow> frame \<Rightarrow> frame" where
  "select_columns cs df = map (\<lambda>(i, r). (i, map (\<lambda>c. (c, col c r)) cs)) df"

text \<open>\<^verbatim>\<open>df.rename(columns=m, inplace=True)\<close>: a column named in the table takes its new
  name, any other keeps its own.\<close>

definition rename_label :: "(string \<times> string) list \<Rightarrow> string \<Rightarrow> string" where
  "rename_label m c = (case map_of m c of None \<Rightarrow> c | Some c' \<Rightarrow> c')"

definition rename :: "(string \<times> string) list \<Rightarrow> frame \<Rightarrow> frame" where
  "rename m df = map (\<lambda>(i, r). (i, map (\<lambda>(c, v). (rename_label m c, v)) r)) df"

text \<open>\<^verbatim>\<open>df.dropna(subset=[k], inplace=True)\<close>.\<close>

definition dropna :: "string \<Rightarrow> frame \<Rightarrow> frame" where
  "dropna k df = filter (\<lambda>(i, r). col k r \<noteq> NaN) df"

text \<open>\<^verbatim>\<open>df[mask]\<close> for a mask computed row by row.\<close>

definition loc :: "(row \<Rightarrow> bool) \<Rightarrow> frame \<Rightarrow> frame" where
  "loc p df = filter (\<lambda>(i, r). p r) df"

text \<open>\<^verbatim>\<open>df.drop(labels, inplace=True)\<close>: every row carrying one of the labels goes.\<close>

definition drop_labels :: "nat list \<Rightarrow> frame \<Rightarrow> frame" where
  "drop_labels ls df = filter (\<lambda>(i, r). i \<notin> set ls) df"

text \<open>\<^verbatim>\<open>series.str[:n]\<close> on one cell of a column of dtype \<^verbatim>\<open>object\<close>: a string is cut to
  its first \<open>n\<close> characters, anything else gives a missing value. For a column of
  another dtype the accessor raises; that is part of the transform below.\<close>

definition str_slice :: "nat \<Rightarrow> cell \<Rightarrow> cell" where
  "str_slice n c = (case c of Str s \<Rightarrow> Str (take n s) | _ \<Rightarrow> NaN)"

text \<open>\<^verbatim>\<open>df.drop_duplicates(subset=[k], inplace=True)\<close> with the default
  \<^verbatim>\<open>keep='first'\<close>: a row goes when an earlier row of the frame has the same value
  in column \<open>k\<close>.\<close>

fun drop_duplicates_from :: "cell list \<Rightarrow> string \<Rightarrow> frame \<Rightarrow> frame" where
  "drop_duplicates_from seen k [] = []"
| "drop_duplicates_from seen k ((i, r) # df) =
     (if col k r \<in> set seen then drop_duplicates_from seen k df
      else (i, r) # drop_duplicates_from (col k r # seen) k df)"

definition drop_duplicates :: "string \<Rightarrow> frame \<Rightarrow> frame" where
  "drop_duplicates k df = drop_duplicates_from [] k df"

section \<open>Conversion of the age column\<close>

text \<open>
  Python's \<^verbatim>\<open>int\<close> on a string, which \<^verbatim>\<open>astype('int64')\<close> applies to the values of a
  column of dtype \<^verbatim>\<open>object\<close>: blanks around the string are skipped, a sign may come
  first, then decimal digits, which single underscores may separate. Characters outside
  ASCII are not accepted here.
\<close>

definition is_space :: "char \<Rightarrow> bool" where
  "is_space c = ((of_char c :: nat) \<in> {9, 10, 11, 12, 13, 28, 29, 30, 31, 32})"

definition is_digit :: "char \<Rightarrow> bool" where
  "is_digit c = (48 \<le> (of_char c :: nat) \<and> (of_char c :: nat) \<le> 57)"

definition digit_val :: "char \<Rightarrow> nat" where
  "digit_val c = of_char c - 48"

definition strip :: "string \<Rightarrow> string" where
  "strip s = rev (dropWhile is_space (rev (dropWhile is_space s)))"

fun py_digits :: "nat \<Rightarrow> string \<Rightarrow> nat option" where
  "py_digits acc [] = Some acc"
| "py_digits acc [c] = (if is_digit c then Some (10 * acc + digit_val c) else None)"
| "py_digits acc (c # d # cs) =
     (if is_digit c then py_digits (10 * acc + digit_val c) (d # cs)
      else if c = CHR ''_'' \<and> is_digit d then py_digits (10 * acc + digit_val d) cs
      else None)"

definition py_nat :: "string \<Rightarrow> nat option" where
  "py_nat s = (case s of [] \<Rightarrow> None
     | c # cs \<Rightarrow> if is_digit c then py_digits (digit_val c) cs else None)"

definition py_int :: "string \<Rightarrow> int option" where
  "py_int s = (case strip s of [] \<Rightarrow> None
     | c # cs \<Rightarrow>
         if c = CHR ''-'' then map_option (\<lambda>n. - int n) (py_nat cs)
         else if c = CHR ''+'' then map_option int (py_nat cs)
         else map_option int (py_nat (c # cs)))"

definition in_int64 :: "int \<Rightarrow> bool" where
  "in_int64 n = (- (2 ^ 63) \<le> n \<and> n < 2 ^ 63)"

text \<open>
  \<^verbatim>\<open>astype('int64')\<close> on a column of numbers is a cast. A whole number stays as it is when
  it is in the 64-bit range; a value of a \<^verbatim>\<open>uint64\<close> column from \<open>2^63\<close> on wraps around.
  A floating-point number loses its fraction; one beyond the 64-bit range has no
  defined result in numpy, and the model takes \<open>-2^63\<close>, the value that the conversion
  instruction of x86-64 gives.
\<close>

definition wrap_int64 :: "int \<Rightarrow> int" where
  "wrap_int64 n = (n + 2 ^ 63) mod 2 ^ 64 - 2 ^ 63"

definition truncate_rat :: "rat \<Rightarrow> int" where
  "truncate_rat q = (if 0 \<le> q then \<lfloor>q\<rfloor> else \<lceil>q\<rceil>)"

definition cast_float64 :: "rat \<Rightarrow> int" where
  "cast_float64 q = (if in_int64 (truncate_rat q) then truncate_rat q else - (2 ^ 63))"

text \<open>One value of the column. A number is cast. A string is read as Python's \<^verbatim>\<open>int\<close>
  reads it: one that cannot be read raises \<^verbatim>\<open>ValueError\<close>, one that stands for a number
  outside the 64-bit range raises \<^verbatim>\<open>OverflowError\<close>. A missing value raises
  \<^verbatim>\<open>ValueError\<close>.\<close>

definition int64_of :: "int \<Rightarrow> exn + cell" where
  "int64_of n = (if in_int64 n then Inr (Num n) else Inl OverflowError)"

fun astype_int64 :: "cell \<Rightarrow> exn + cell" where
  "astype_int64 NaN = Inl ValueError"
| "astype_int64 (Num n) = Inr (Num (wrap_int64 n))"
| "astype_int64 (Flt q) = Inr (Num (cast_float64 q))"
| "astype_int64 (Str s) = (case py_int s of None \<Rightarrow> Inl ValueError | Some n \<Rightarrow> int64_of n)"

text \<open>\<^verbatim>\<open>df[k] = df[k].astype('int64')\<close>: the whole column is converted, and the first
  value that cannot be converted raises.\<close>

fun astype_column :: "string \<Rightarrow> frame \<Rightarrow> exn + frame" where
  "astype_column k [] = Inr []"
| "astype_column k ((i, r) # df) =
     (case astype_int64 (col k r) of
        Inl e \<Rightarrow> Inl e
      | Inr v \<Rightarrow>
          (case astype_column k df of
             Inl e \<Rightarrow> Inl e
           | Inr df' \<Rightarrow> Inr ((i, AList.update k v r) # df')))"

section \<open>The transform of one chunk\<close>

text \<open>The thirteen source columns and the table of their new names.\<close>

definition columns :: "string list" where
  "columns =
    [''id_evento_caso'', ''sexo'', ''edad'', ''fecha_inicio_sintomas'', ''fecha_apertura'',
     ''fecha_fallecimiento'', ''asistencia_respiratoria_mecanica'', ''carga_provincia_id'',
     ''clasificacion_resumen'', ''residencia_provincia_id'', ''fecha_diagnostico'',
     ''residencia_departamento_id'', ''ultima_actualizacion'']"

definition rename_table :: "(string \<times> string) list" where
  "rename_table =
    [(''id_evento_caso'', ''covid_case_csv_id''),
     (''sexo'', ''gender_id''),
     (''edad'', ''age''),
     (''fecha_inicio_sintomas'', ''symptoms_start_date''),
     (''fecha_apertura'', ''registration_date''),
     (''fecha_fallecimiento'', ''death_date''),
     (''asistencia_respiratoria_mecanica'', ''respiratory_assistance''),
     (''carga_provincia_id'', ''registration_state_id''),
     (''clasificacion_resumen'', ''clasification''),
     (''residencia_provincia_id'', ''residence_state_id''),
     (''fecha_diagnostico'', ''diagnosis_date''),
     (''residencia_departamento_id'', ''residence_department_id''),
     (''ultima_actualizacion'', ''last_update'')]"

text \<open>The two masks of the loop body: \<^verbatim>\<open>df.registration_date.str[:4] != '2022'\<close> and
  \<^verbatim>\<open>df['registration_state_id'] == 0\<close>. The comparison with 0 holds of the number 0,
  whole or floating-point, and of no string.\<close>

definition other_year :: "row \<Rightarrow> bool" where
  "other_year r = (str_slice 4 (col ''registration_date'' r) \<noteq> Str ''2022'')"

definition is_zero :: "cell \<Rightarrow> bool" where
  "is_zero c = (c = Num 0 \<or> c = Flt 0)"

definition state_is_zero :: "row \<Rightarrow> bool" where
  "state_is_zero r = is_zero (col ''registration_state_id'' r)"

text \<open>The rows that the statements of lines 208, 211, 214, 217 and 220 leave, in the
  order of the loop body, where the string accessor of line 211 applies.\<close>

definition drop_other_years :: "frame \<Rightarrow> frame" where
  "drop_other_years df = drop_labels (index (loc other_year df)) df"

definition drop_zero_state :: "frame \<Rightarrow> frame" where
  "drop_zero_state df = drop_labels (index (loc state_is_zero df)) df"

definition year_filtered :: "frame \<Rightarrow> frame" where
  "year_filtered df = drop_other_years (dropna ''covid_case_csv_id'' df)"

definition chunk_filters :: "frame \<Rightarrow> frame" where
  "chunk_filters df =
     dropna ''age''
       (drop_zero_state (drop_duplicates ''covid_case_csv_id'' (year_filtered df)))"

definition renamed :: "frame \<Rightarrow> frame" where
  "renamed df = rename rename_table (select_columns columns df)"

section \<open>The chunks of the case file\<close>

text \<open>
  \<^verbatim>\<open>pd.read_csv(path, chunksize=30000)\<close> hands out the records of the file in groups of
  at most 30000 and decides the dtype of each column group by group. The file is
  therefore given by its header and by its records in these groups, each value as the
  reader types it in its group. A chunk is the header with the rows of one group; the
  records are labelled 0, 1, 2, ... through the whole file. A record shorter than the
  header has missing values in the columns it does not reach; a record longer than the
  header is not modelled. For a file with a header and no record the reader hands out
  one chunk without rows.
\<close>

record csv_file =
  file_header :: "string list"
  groups :: "cell list list list"

record chunk =
  header :: "string list"
  rows :: frame

fun label_from :: "nat \<Rightarrow> string list \<Rightarrow> cell list list list \<Rightarrow> chunk list" where
  "label_from k h [] = []"
| "label_from k h (g # gs) =
     \<lparr>header = h, rows = enumerate k (map (zip h) g)\<rparr> # label_from (k + length g) h gs"

definition read_csv :: "csv_file \<Rightarrow> chunk list" where
  "read_csv f =
     (if groups f = [] then [\<lparr>header = file_header f, rows = []\<rparr>]
      else label_from 0 (file_header f) (groups f))"

text \<open>
  The dtype of source column \<open>c\<close> in the frame that the column selection makes of a
  chunk is \<^verbatim>\<open>object\<close> when the reader has found a string in the column, and also when
  the chunk has no rows and the header has the column. Otherwise the column holds
  numbers and missing values only, or the selection has created it with missing values,
  and its dtype is numeric.
\<close>

definition is_str :: "cell \<Rightarrow> bool" where
  "is_str c = (case c of Str s \<Rightarrow> True | _ \<Rightarrow> False)"

definition object_dtype :: "string \<Rightarrow> chunk \<Rightarrow> bool" where
  "object_dtype c ch =
     (if rows ch = [] then c \<in> set (header ch)
      else list_ex (\<lambda>(i, r). is_str (col c r)) (rows ch))"

text \<open>The loop body up to the write: column selection, renaming, the five filters and
  the conversion of the age column. The \<^verbatim>\<open>.str\<close> accessor of line 211 raises
  \<^verbatim>\<open>AttributeError\<close> when the column \<^verbatim>\<open>registration_date\<close>, which is the source column
  \<^verbatim>\<open>fecha_apertura\<close>, is not of dtype \<^verbatim>\<open>object\<close>; line 208 before it raises nothing.\<close>

definition transform :: "chunk \<Rightarrow> exn + frame" where
  "transform ch =
     (if object_dtype ''fecha_apertura'' ch
      then astype_column ''age'' (chunk_filters (renamed (rows ch)))
      else Inl AttributeError)"

section \<open>The case table and the load loop\<close>

text \<open>
  Modelled from the spec: the definition of the table \<^verbatim>\<open>covid19_case\<close> is not in the
  repository. The spec describes \<^verbatim>\<open>covid_case_id\<close> as an internally generated
  surrogate key, so a stored row is the written row together with a key that the
  database draws from a counter. The values are stored as the frame has them.
\<close>

type_synonym db_row = "int \<times> row"

record sink =
  covid19_case :: "db_row list"
  next_covid_case_id :: int

text \<open>\<^verbatim>\<open>df.to_sql('covid19_case', ..., index=False, if_exists='append')\<close>: the rows are
  added after those already stored, in the order of the frame and without the index.
  The write itself is taken to succeed.\<close>

definition to_sql :: "frame \<Rightarrow> sink \<Rightarrow> sink" where
  "to_sql df s =
     s\<lparr>covid19_case :=
         covid19_case s @
           zip (map (\<lambda>j. next_covid_case_id s + int j) [0..<length df]) (map snd df),
       next_covid_case_id := next_covid_case_id s + int (length df)\<rparr>"

text \<open>The \<^verbatim>\<open>for\<close> loop over the chunks. An exception in the body is raised again by the
  \<^verbatim>\<open>except: raise\<close> clause and ends the loop; the result is the table as it is then,
  with the exception.\<close>

fun load_chunks :: "chunk list \<Rightarrow> sink \<Rightarrow> sink \<times> exn option" where
  "load_chunks [] s = (s, None)"
| "load_chunks (ch # chs) s =
     (case transform ch of
        Inl e \<Rightarrow> (s, Some e)
      | Inr out \<Rightarrow> load_chunks chs (to_sql out s))"

section \<open>The cleanup after the load\<close>

definition csv_id :: "db_row \<Rightarrow> cell" where
  "csv_id a = col ''covid_case_csv_id'' (snd a)"

text \<open>SQL's \<^verbatim>\<open>=\<close> in a \<^verbatim>\<open>WHERE\<close> clause: a comparison with \<^verbatim>\<open>NULL\<close> does not hold.\<close>

definition sql_eq :: "cell \<Rightarrow> cell \<Rightarrow> bool" where
  "sql_eq x y = (x \<noteq> NaN \<and> y \<noteq> NaN \<and> x = y)"

text \<open>The subquery: one row \<^verbatim>\<open>(MIN(covid_case_id), covid_case_csv_id)\<close> for each group
  of \<^verbatim>\<open>GROUP BY covid_case_csv_id\<close> that has more than one row.\<close>

definition group_of :: "cell \<Rightarrow> db_row list \<Rightarrow> db_row list" where
  "group_of v t = filter (\<lambda>a. csv_id a = v) t"

definition duplicate_groups :: "db_row list \<Rightarrow> (int \<times> cell) list" where
  "duplicate_groups t =
     map (\<lambda>v. (Min (set (map fst (group_of v t))), v))
       (filter (\<lambda>v. length (group_of v t) > 1) (remdups (map csv_id t)))"

text \<open>\<^verbatim>\<open>DELETE FROM covid19_case a USING (...) b WHERE a.covid_case_csv_id =
  b.covid_case_csv_id AND a.covid_case_id <> b.covid_case_id\<close>.\<close>

definition delete_duplicates :: "db_row list \<Rightarrow> db_row list" where
  "delete_duplicates t =
     filter (\<lambda>a. \<not> list_ex (\<lambda>b. sql_eq (csv_id a) (snd b) \<and> fst a \<noteq> fst b)
                      (duplicate_groups t)) t"

text \<open>The case part of the job: the table is emptied, the chunks are loaded, and when
  the loop has ended without an exception the duplicates are deleted.\<close>

definition truncate_case :: "sink \<Rightarrow> sink" where
  "truncate_case s = s\<lparr>covid19_case := []\<rparr>"

definition etl_cases :: "csv_file \<Rightarrow> sink \<Rightarrow> sink \<times> exn option" where
  "etl_cases f s =
     (case load_chunks (read_csv f) (truncate_case s) of
        (s', Some e) \<Rightarrow> (s', Some e)
      | (s', None) \<Rightarrow> (s'\<lparr>covid19_case := delete_duplicates (covid19_case s')\<rparr>, None))"

section \<open>Fetching an object\<close>

text \<open>
  The names bound in the module when \<^verbatim>\<open>download_from_aws\<close> is first called: the five
  imports, the two functions and the variables assigned before line 76.
\<close>

definition module_names :: "string list" where
  "module_names =
    [''pd'', ''create_engine'', ''os'', ''zipfile'', ''boto3'',
     ''getParameter'', ''download_from_aws'',
     ''AWS_REGION'', ''S3_BUCKET'', ''DB_HOST'', ''DB_DATABASE'', ''DB_USER'', ''DB_PASS'',
     ''DB_PORT'', ''session'', ''credentials'',
     ''AWS_ACCESS_KEY_ID'', ''AWS_SECRET_ACCESS_KEY'', ''AWS_SESSION_TOKEN'']"

text \<open>The exception classes among Python's built-in names that matter here.\<close>

definition builtin_names :: "string list" where
  "builtin_names =
    [''FileNotFoundError'', ''ValueError'', ''OverflowError'', ''AttributeError'', ''NameError'']"

definition class_name :: "exn \<Rightarrow> string" where
  "class_name e = (case e of
       ValueError \<Rightarrow> ''ValueError''
     | OverflowError \<Rightarrow> ''OverflowError''
     | AttributeError \<Rightarrow> ''AttributeError''
     | FileNotFoundError \<Rightarrow> ''FileNotFoundError''
     | NoCredentialsError \<Rightarrow> ''NoCredentialsError''
     | ClientError \<Rightarrow> ''ClientError''
     | NameError _ \<Rightarrow> ''NameError'')"

text \<open>One \<^verbatim>\<open>except C:\<close> clause: the name \<open>C\<close> is looked up when the clause is reached,
  which raises \<^verbatim>\<open>NameError\<close> for a name that is bound nowhere; then the exception is
  tested against the class.\<close>

definition except_clause :: "string \<Rightarrow> exn \<Rightarrow> exn + bool" where
  "except_clause c e =
     (if c \<in> set module_names \<or> c \<in> set builtin_names then Inr (class_name e = c)
      else Inl (NameError c))"

text \<open>\<^verbatim>\<open>download_from_aws\<close>, for a client whose \<^verbatim>\<open>download_file\<close> returns or raises.\<close>

definition download_from_aws ::
  "(string \<Rightarrow> string \<Rightarrow> string \<Rightarrow> exn + unit) \<Rightarrow> string \<Rightarrow> string \<Rightarrow> string \<Rightarrow> exn + bool" where
  "download_from_aws download_file bucket s3_file local_file =
     (case download_file bucket s3_file local_file of
        Inr _ \<Rightarrow> Inr True
      | Inl e \<Rightarrow>
          (case except_clause ''FileNotFoundError'' e of
             Inl x \<Rightarrow> Inl x
           | Inr True \<Rightarrow> Inr False
           | Inr False \<Rightarrow>
               (case except_clause ''NoCredentialsError'' e of
                  Inl x \<Rightarrow> Inl x
                | Inr True \<Rightarrow> Inr False
                | Inr False \<Rightarrow> Inl e)))"

section \<open>The statements of the specification\<close>

text \<open>A cell that is a string beginning with the year.\<close>

definition has_year_prefix :: "string \<Rightarrow> cell \<Rightarrow> bool" where
  "has_year_prefix y c = (case c of Str s \<Rightarrow> take 4 s = y | _ \<Rightarrow> False)"





text \<open>The steps 3 to 7 of the specification, each as a plain selection of rows: records
  with an identifier; records of the target year; the first record of each identifier;
  records whose registration state is not the number 0; records with an age.\<close>

definition spec_identifier_filter :: "frame \<Rightarrow> frame" where
  "spec_identifier_filter df = filter (\<lambda>(i, r). col ''covid_case_csv_id'' r \<noteq> NaN) df"

definition spec_year_filter :: "frame \<Rightarrow> frame" where
  "spec_year_filter df =
     filter (\<lambda>(i, r). has_year_prefix ''2022'' (col ''registration_date'' r)) df"

fun spec_dedup :: "frame \<Rightarrow> frame" where
  "spec_dedup [] = []"
| "spec_dedup ((i, r) # df) =
     (i, r) # filter (\<lambda>(j, x). col ''covid_case_csv_id'' x \<noteq> col ''covid_case_csv_id'' r)
                (spec_dedup df)"





text \<open>A row that the cleanup is to delete, in the words of the specification: its
  identifier is a value that more than one row of the table has, and its key is not the
  smallest key among those rows.\<close>

definition spec_residual_duplicate :: "db_row list \<Rightarrow> db_row \<Rightarrow> bool" where
  "spec_residual_duplicate t a =
     (1 < length (filter (\<lambda>b. sql_eq (csv_id b) (csv_id a)) t) \<and>
      fst a \<noteq> Min (set (map fst (filter (\<lambda>b. sql_eq (csv_id b) (csv_id a)) t))))"

section \<open>Example data\<close>

text \<open>The chunk of the specification's first scenario, with a column that the job does
  not use, and the table of its second scenario. One age of the chunk is not a number,
  so the reader hands out the ages as strings.\<close>

definition case_record :: "cell \<Rightarrow> cell \<Rightarrow> cell \<Rightarrow> cell \<Rightarrow> cell list" where
  "case_record ident edad apertura provincia = [ident, Str ''F'', edad, apertura, provincia]"

definition scenario_file :: csv_file where
  "scenario_file =
     \<lparr>file_header =
        [''id_evento_caso'', ''sexo'', ''edad'', ''fecha_apertura'', ''carga_provincia_id''],
      groups =
        [[case_record (Num 1) (Str ''45'') (Str ''2022-01-01'') (Num 5),
          case_record (Num 1) (Str ''50'') (Str ''2022-02-01'') (Num 3),
          case_record (Num 2) NaN (Str ''2022-01-01'') (Num 1),
          case_record (Num 3) (Str ''30'') (Str ''2021-12-31'') (Num 2),
          case_record (Num 4) (Str ''abc'') (Str ''2022-01-01'') (Num 0)]]\<rparr>"

definition scenario_chunk :: chunk where
  "scenario_chunk =
     \<lparr>header = file_header scenario_file,
      rows = enumerate 0 (map (zip (file_header scenario_file)) (hd (groups scenario_file)))\<rparr>"

definition target_row ::
  "cell \<Rightarrow> cell \<Rightarrow> cell \<Rightarrow> cell \<Rightarrow> cell \<Rightarrow> row" where
  "target_row ident gender age date state =
     [(''covid_case_csv_id'', ident), (''gender_id'', gender), (''age'', age),
      (''symptoms_start_date'', NaN), (''registration_date'', date),
      (''death_date'', NaN), (''respiratory_assistance'', NaN),
      (''registration_state_id'', state), (''clasification'', NaN),
      (''residence_state_id'', NaN), (''diagnosis_date'', NaN),
      (''residence_department_id'', NaN), (''last_update'', NaN)]"

definition scenario_output :: frame where
  "scenario_output =
     [(0, target_row (Num 1) (Str ''F'') (Num 45) (Str ''2022-01-01'') (Num 5))]"

definition empty_sink :: sink where
  "empty_sink = \<lparr>covid19_case = [], next_covid_case_id = 1\<rparr>"

definition scenario_table :: "db_row list" where
  "scenario_table =
     [(10, [(''covid_case_csv_id'', Str ''A'')]),
      (11, [(''covid_case_csv_id'', Str ''A'')]),
      (12, [(''covid_case_csv_id'', Str ''B'')])]"

definition short_header :: "string list" where
  "short_header = [''id_evento_caso'', ''edad'', ''fecha_apertura'', ''carga_provincia_id'']"



definition second_chunk :: chunk where
  "second_chunk =
     \<lparr>header = short_header,
      rows = [(1, zip short_header [Num 2, Str ''abc'', Str ''2022-01-02'', Num 5])]\<rparr>"





text \<open>A file in which one registration state is not a number, so that the reader hands
  out the states of the group as strings, the state 0 of the first record among them.
  The record with the other state is of another year.\<close>

definition text_state_file :: csv_file where
  "text_state_file =
     \<lparr>file_header = short_header,
      groups =
        [[[Num 1, Num 45, Str ''2022-01-01'', Str ''0''],
          [Num 2, Num 30, Str ''2021-12-31'', Str ''SIN ESPECIFICAR'']]]\<rparr>"

text \<open>A case file whose header has no column \<^verbatim>\<open>edad\<close>.\<close>

definition file_without_edad :: csv_file where
  "file_without_edad =
     \<lparr>file_header = [''id_evento_caso'', ''fecha_apertura'', ''carga_provincia_id''],
      groups = [[[Num 1, Str ''2022-01-01'', Num 5]]]\<rparr>"

section \<open>Properties of the frame operations\<close>

lemma set_dropna: "set (dropna k df) \<subseteq> set df"
  by (auto simp: dropna_def)

lemma set_drop_labels: "set (drop_labels ls df) \<subseteq> set df"
  by (auto simp: drop_labels_def)

lemma set_drop_duplicates_from: "set (drop_duplicates_from seen k df) \<subseteq> set df"
  by (induction seen k df rule: drop_duplicates_from.induct) auto

lemma set_drop_duplicates: "set (drop_duplicates k df) \<subseteq> set df"
  by (simp add: drop_duplicates_def set_drop_duplicates_from)

lemma dropna_notna: "(i, r) \<in> set (dropna k df) \<Longrightarrow> col k r \<noteq> NaN"
  by (auto simp: dropna_def)

lemma drop_masked: "(i, r) \<in> set (drop_labels (index (loc p df)) df) \<Longrightarrow> \<not> p r"
  by (force simp: drop_labels_def index_def loc_def)

lemma drop_duplicates_from_fresh:
  "(i, r) \<in> set (drop_duplicates_from seen k df) \<Longrightarrow> col k r \<notin> set seen"
  by (induction seen k df rule: drop_duplicates_from.induct) (auto split: if_splits)

lemma distinct_drop_duplicates_from:
  "distinct (map (\<lambda>(i, r). col k r) (drop_duplicates_from seen k df))"
proof (induction seen k df rule: drop_duplicates_from.induct)
  case (1 seen k)
  then show ?case by simp
next
  case (2 seen k i r df)
  then show ?case
    by (auto dest: drop_duplicates_from_fresh)
qed

lemma distinct_drop_duplicates:
  "distinct (map (\<lambda>(i, r). col k r) (drop_duplicates k df))"
  by (simp add: drop_duplicates_def distinct_drop_duplicates_from)

lemma drop_duplicates_from_id:
  "distinct (map (\<lambda>(i, r). col k r) df) \<Longrightarrow>
   \<forall>(i, r) \<in> set df. col k r \<notin> set seen \<Longrightarrow>
   drop_duplicates_from seen k df = df"
proof (induction seen k df rule: drop_duplicates_from.induct)
  case (1 seen k)
  then show ?case by simp
next
  case (2 seen k i r df)
  from 2(3,4) have fresh: "col k r \<notin> set seen"
    and rest: "\<forall>(j, x) \<in> set df. col k x \<notin> set (col k r # seen)"
    and dist: "distinct (map (\<lambda>(i, r). col k r) df)"
    by (auto simp: image_iff)
  from 2(2) [OF fresh dist rest] fresh show ?case by simp
qed

lemma drop_duplicates_id:
  "distinct (map (\<lambda>(i, r). col k r) df) \<Longrightarrow> drop_duplicates k df = df"
  by (simp add: drop_duplicates_def drop_duplicates_from_id)

lemma dropna_id: "\<forall>(i, r) \<in> set df. col k r \<noteq> NaN \<Longrightarrow> dropna k df = df"
  by (auto simp: dropna_def intro: filter_True)

lemma drop_unmasked_id:
  "\<forall>(i, r) \<in> set df. \<not> p r \<Longrightarrow> drop_labels (index (loc p df)) df = df"
proof -
  assume a: "\<forall>(i, r) \<in> set df. \<not> p r"
  then have "loc p df = []"
    by (auto simp: loc_def filter_empty_conv)
  then show ?thesis
    by (simp add: drop_labels_def index_def)
qed

lemma distinct_dropna:
  "distinct (map (\<lambda>(i, r). col k r) df) \<Longrightarrow> distinct (map (\<lambda>(i, r). col k r) (dropna k' df))"
  by (simp add: dropna_def distinct_map_filter)

lemma distinct_drop_labels:
  "distinct (map (\<lambda>(i, r). col k r) df) \<Longrightarrow> distinct (map (\<lambda>(i, r). col k r) (drop_labels ls df))"
  by (simp add: drop_labels_def distinct_map_filter)

lemma set_year_filtered: "set (year_filtered df) \<subseteq> set df"
  unfolding year_filtered_def drop_other_years_def
  using set_drop_labels set_dropna by blast

lemma set_chunk_filters:
  "set (chunk_filters df) \<subseteq> set (drop_duplicates ''covid_case_csv_id'' (year_filtered df))"
  unfolding chunk_filters_def drop_zero_state_def
  using set_drop_labels set_dropna by blast

lemma chunk_filters_rows:
  assumes "(i, r) \<in> set (chunk_filters df)"
  shows "col ''covid_case_csv_id'' r \<noteq> NaN" "\<not> other_year r" "\<not> state_is_zero r"
    "col ''age'' r \<noteq> NaN"
proof -
  let ?df3 = "drop_duplicates ''covid_case_csv_id'' (year_filtered df)"
  from assms have m5: "(i, r) \<in> set (dropna ''age'' (drop_zero_state ?df3))"
    by (simp add: chunk_filters_def)
  then show "col ''age'' r \<noteq> NaN" by (rule dropna_notna)
  from m5 have "(i, r) \<in> set (drop_zero_state ?df3)" using set_dropna by blast
  then show "\<not> state_is_zero r" unfolding drop_zero_state_def by (rule drop_masked)
  from assms have "(i, r) \<in> set ?df3" using set_chunk_filters by blast
  then have m2: "(i, r) \<in> set (year_filtered df)" using set_drop_duplicates by blast
  then show "\<not> other_year r"
    unfolding year_filtered_def drop_other_years_def by (rule drop_masked)
  from m2 have "(i, r) \<in> set (dropna ''covid_case_csv_id'' df)"
    unfolding year_filtered_def drop_other_years_def using set_drop_labels by blast
  then show "col ''covid_case_csv_id'' r \<noteq> NaN" by (rule dropna_notna)
qed

lemma chunk_filters_distinct:
  "distinct (map (\<lambda>(i, r). col ''covid_case_csv_id'' r) (chunk_filters df))"
  by (simp add: chunk_filters_def drop_zero_state_def distinct_dropna distinct_drop_labels
      distinct_drop_duplicates)

lemma chunk_filters_fixed:
  assumes rows: "\<forall>(i, r) \<in> set df. col ''covid_case_csv_id'' r \<noteq> NaN \<and> \<not> other_year r \<and>
      \<not> state_is_zero r \<and> col ''age'' r \<noteq> NaN"
    and dist: "distinct (map (\<lambda>(i, r). col ''covid_case_csv_id'' r) df)"
  shows "chunk_filters df = df"
proof -
  have 1: "dropna ''covid_case_csv_id'' df = df"
    using rows by (intro dropna_id) auto
  have 2: "drop_other_years df = df"
    unfolding drop_other_years_def using rows by (intro drop_unmasked_id) auto
  have 3: "drop_duplicates ''covid_case_csv_id'' df = df"
    using dist by (rule drop_duplicates_id)
  have 4: "drop_zero_state df = df"
    unfolding drop_zero_state_def using rows by (intro drop_unmasked_id) auto
  have 5: "dropna ''age'' df = df"
    using rows by (intro dropna_id) auto
  show ?thesis
    by (simp add: chunk_filters_def year_filtered_def 1 2 3 4 5)
qed

subsection \<open>The conversion of a column\<close>

lemma col_update_same: "col k (AList.update k v r) = v"
  by (simp add: col_def update_conv')

lemma col_update_other: "k' \<noteq> k \<Longrightarrow> col k' (AList.update k v r) = col k' r"
  by (simp add: col_def update_conv')

lemma int64_of_Inr: "int64_of n = Inr v \<Longrightarrow> v = Num n \<and> in_int64 n"
  by (auto simp: int64_of_def split: if_splits)

lemma in_int64_wrap: "in_int64 (wrap_int64 n)"
proof -
  define m where "m = (n + 2 ^ 63) mod (2 ^ 64 :: int)"
  have e: "(2 :: int) ^ 64 = 2 * 2 ^ 63" by simp
  have "0 \<le> m" "m < 2 ^ 64"
    by (simp_all add: m_def)
  with e have "- (2 ^ 63) \<le> m - 2 ^ 63 \<and> m - 2 ^ 63 < (2 ^ 63 :: int)"
    by linarith
  then show ?thesis
    by (simp add: in_int64_def wrap_int64_def m_def)
qed

lemma wrap_int64_id: "in_int64 n \<Longrightarrow> wrap_int64 n = n"
  unfolding in_int64_def wrap_int64_def by (simp add: mod_pos_pos_trivial)

lemma in_int64_cast: "in_int64 (cast_float64 q)"
  by (simp add: cast_float64_def in_int64_def)

lemma astype_int64_Inr: "astype_int64 c = Inr v \<Longrightarrow> \<exists>n. v = Num n \<and> in_int64 n"
  by (cases c) (auto split: option.splits dest: int64_of_Inr simp: in_int64_wrap in_int64_cast)




lemma astype_column_rows:
  "astype_column k df = Inr out \<Longrightarrow> (i, r') \<in> set out \<Longrightarrow>
   \<exists>r v. (i, r) \<in> set df \<and> astype_int64 (col k r) = Inr v \<and> r' = AList.update k v r"
proof (induction k df arbitrary: out rule: astype_column.induct)
  case (1 k)
  then show ?case by simp
next
  case (2 k j x df)
  then show ?case
    by (fastforce split: sum.splits)
qed

lemma astype_column_maps:
  "(i, r) \<in> set df \<Longrightarrow> astype_column k df = Inr out \<Longrightarrow>
   \<exists>v. astype_int64 (col k r) = Inr v \<and> (i, AList.update k v r) \<in> set out"
proof (induction k df arbitrary: out rule: astype_column.induct)
  case (1 k)
  then show ?case by simp
next
  case (2 k j x df)
  then show ?case
    by (fastforce split: sum.splits)
qed

lemma astype_column_keys:
  "astype_column k df = Inr out \<Longrightarrow> k' \<noteq> k \<Longrightarrow>
   map (\<lambda>(i, r). col k' r) out = map (\<lambda>(i, r). col k' r) df"
proof (induction k df arbitrary: out rule: astype_column.induct)
  case (1 k)
  then show ?case by simp
next
  case (2 k j x df)
  then show ?case
    by (auto split: sum.splits simp: col_update_other)
qed



lemma drop_duplicates_from_first:
  "(i, r) \<in> set (drop_duplicates_from seen k df) \<Longrightarrow>
   \<exists>pre post. df = pre @ (i, r) # post \<and> (\<forall>p \<in> set pre. col k (snd p) \<noteq> col k r)"
proof (induction seen k df rule: drop_duplicates_from.induct)
  case (1 seen k)
  then show ?case by simp
next
  case (2 seen k j x df)
  have step: "\<exists>pre post. (j, x) # df = pre @ (i, r) # post \<and>
        (\<forall>p \<in> set pre. col k (snd p) \<noteq> col k r)"
    if mem: "(i, r) \<in> set (drop_duplicates_from seen' k df)"
      and ih: "\<exists>pre post. df = pre @ (i, r) # post \<and> (\<forall>p \<in> set pre. col k (snd p) \<noteq> col k r)"
      and inseen: "col k x \<in> set seen'" for seen'
  proof -
    from ih obtain pre post where
      p1: "df = pre @ (i, r) # post" and p2: "\<forall>p \<in> set pre. col k (snd p) \<noteq> col k r"
      by (elim exE conjE)
    from mem have "col k r \<notin> set seen'" by (rule drop_duplicates_from_fresh)
    with inseen have ne: "col k x \<noteq> col k r" by metis
    have a: "(j, x) # df = ((j, x) # pre) @ (i, r) # post"
      unfolding p1 by (rule Cons_eq_appendI) (rule refl, rule refl)
    have b: "\<forall>p \<in> set ((j, x) # pre). col k (snd p) \<noteq> col k r"
      using p2 ne by simp
    from a b show ?thesis by (intro exI conjI)
  qed
  show ?case
  proof (cases "col k x \<in> set seen")
    case True
    with 2(3) have mem: "(i, r) \<in> set (drop_duplicates_from seen k df)" by simp
    from step [OF mem 2(1) [OF True mem] True] show ?thesis .
  next
    case False
    show ?thesis
    proof (cases "i = j \<and> r = x")
      case True
      have a: "(j, x) # df = [] @ (i, r) # df" using True by simp
      have b: "\<forall>p \<in> set []. col k (snd p) \<noteq> col k r" by simp
      from a b show ?thesis by (intro exI conjI)
    next
      case ne: False
      from 2(3) False have "(i, r) \<in> set ((j, x) # drop_duplicates_from (col k x # seen) k df)"
        by simp
      with ne have mem: "(i, r) \<in> set (drop_duplicates_from (col k x # seen) k df)"
        by auto
      have "col k x \<in> set (col k x # seen)" by simp
      from step [OF mem 2(2) [OF False mem] this] show ?thesis .
    qed
  qed
qed

subsection \<open>The transform and the write\<close>

lemma other_year_iff: "\<not> other_year r \<longleftrightarrow> has_year_prefix ''2022'' (col ''registration_date'' r)"
  by (cases "col ''registration_date'' r") (simp_all add: other_year_def str_slice_def has_year_prefix_def)

lemma transform_Inr:
  "transform ch = Inr out \<Longrightarrow>
   object_dtype ''fecha_apertura'' ch \<and>
   astype_column ''age'' (chunk_filters (renamed (rows ch))) = Inr out"
  by (auto simp: transform_def split: if_splits)


subsection \<open>The scenario chunk, evaluated\<close>

lemma scenario_transform: "transform scenario_chunk = Inr scenario_output"
  by code_simp

section \<open>The filters as selections\<close>

lemma index_renamed: "index (renamed df) = index df"
  by (simp add: index_def renamed_def rename_def select_columns_def comp_def case_prod_unfold)

lemma label_row_unique:
  "distinct (index df) \<Longrightarrow> (i, r) \<in> set df \<Longrightarrow> (i, r') \<in> set df \<Longrightarrow> r = r'"
  unfolding index_def by (rule eq_key_imp_eq_value)

lemma drop_masked_filter:
  assumes "distinct (index df)"
  shows "drop_labels (index (loc p df)) df = filter (\<lambda>(i, r). \<not> p r) df"
  unfolding drop_labels_def
proof (rule filter_cong [OF refl])
  fix x assume x: "x \<in> set df"
  obtain i r where ir: "x = (i, r)" by (cases x)
  have "i \<in> set (index (loc p df)) \<longleftrightarrow> p r"
  proof
    assume "i \<in> set (index (loc p df))"
    then obtain r' where "(i, r') \<in> set df" "p r'"
      by (auto simp: index_def loc_def)
    with x ir assms show "p r" using label_row_unique by blast
  next
    assume "p r"
    with x ir show "i \<in> set (index (loc p df))"
      by (force simp: index_def loc_def)
  qed
  then show "(case x of (i, r) \<Rightarrow> i \<notin> set (index (loc p df))) = (case x of (i, r) \<Rightarrow> \<not> p r)"
    by (simp add: ir)
qed

lemma distinct_index_filter: "distinct (index df) \<Longrightarrow> distinct (index (filter q df))"
  by (simp add: index_def distinct_map_filter)

lemma distinct_index_spec_dedup: "distinct (index df) \<Longrightarrow> distinct (index (spec_dedup df))"
proof (induction df rule: spec_dedup.induct)
  case 1
  then show ?case by simp
next
  case (2 i r df)
  have sub: "set (spec_dedup df) \<subseteq> set df" for df
    by (induction df rule: spec_dedup.induct) auto
  from 2 have "distinct (index (spec_dedup df))" by (simp add: index_def)
  then have "distinct (index (filter (\<lambda>(j, x). col ''covid_case_csv_id'' x \<noteq> col ''covid_case_csv_id'' r) (spec_dedup df)))"
    by (rule distinct_index_filter)
  moreover from 2(2) sub [of df] have "i \<notin> fst ` set (spec_dedup df)"
    by (auto simp: index_def)
  ultimately show ?case by (auto simp: index_def)
qed

lemma drop_duplicates_from_spec:
  "drop_duplicates_from seen ''covid_case_csv_id'' df =
     filter (\<lambda>(i, r). col ''covid_case_csv_id'' r \<notin> set seen) (spec_dedup df)"
proof (induction df arbitrary: seen rule: spec_dedup.induct)
  case 1
  then show ?case by simp
next
  case (2 i r df)
  show ?case
  proof (cases "col ''covid_case_csv_id'' r \<in> set seen")
    case True
    have "filter (\<lambda>(i, r). col ''covid_case_csv_id'' r \<notin> set seen)
            (filter (\<lambda>(j, x). col ''covid_case_csv_id'' x \<noteq> col ''covid_case_csv_id'' r) (spec_dedup df)) =
          filter (\<lambda>(i, r). col ''covid_case_csv_id'' r \<notin> set seen) (spec_dedup df)"
      unfolding filter_filter using True by (intro filter_cong) auto
    with True 2 [of seen] show ?thesis by simp
  next
    case False
    have "filter (\<lambda>(i, r). col ''covid_case_csv_id'' r \<notin> set seen)
            (filter (\<lambda>(j, x). col ''covid_case_csv_id'' x \<noteq> col ''covid_case_csv_id'' r) (spec_dedup df)) =
          filter (\<lambda>(j, x). col ''covid_case_csv_id'' x \<notin> set (col ''covid_case_csv_id'' r # seen)) (spec_dedup df)"
      unfolding filter_filter by (intro filter_cong) auto
    with False 2 [of "col ''covid_case_csv_id'' r # seen"] show ?thesis by simp
  qed
qed

lemma drop_duplicates_spec: "drop_duplicates ''covid_case_csv_id'' df = spec_dedup df"
  by (simp add: drop_duplicates_def drop_duplicates_from_spec)

lemma year_filtered_spec:
  assumes "distinct (index df)"
  shows "year_filtered df = spec_year_filter (spec_identifier_filter df)"
proof -
  have 1: "dropna ''covid_case_csv_id'' df = spec_identifier_filter df"
    by (simp add: dropna_def spec_identifier_filter_def)
  have d1: "distinct (index (spec_identifier_filter df))"
    unfolding spec_identifier_filter_def using assms by (rule distinct_index_filter)
  show ?thesis
    unfolding year_filtered_def drop_other_years_def 1 drop_masked_filter [OF d1]
    by (simp add: spec_year_filter_def other_year_iff)
qed


lemma first_row_kept:
  "df = pre @ x # post \<Longrightarrow>
   \<forall>p \<in> set pre. col k (snd p) \<noteq> col k (snd x) \<Longrightarrow>
   col k (snd x) \<notin> set seen \<Longrightarrow>
   x \<in> set (drop_duplicates_from seen k df)"
proof (induction pre arbitrary: df seen)
  case Nil
  obtain i r where x: "x = (i, r)" by (cases x)
  with Nil show ?case by simp
next
  case (Cons p pre)
  obtain j y where p: "p = (j, y)" by (cases p)
  from Cons.prems(2) p have ne: "col k y \<noteq> col k (snd x)"
    and rest: "\<forall>p \<in> set pre. col k (snd p) \<noteq> col k (snd x)"
    by simp_all
  show ?case
  proof (cases "col k y \<in> set seen")
    case True
    from Cons.IH [OF refl rest Cons.prems(3)] True show ?thesis
      by (simp add: Cons.prems(1) p)
  next
    case False
    from ne Cons.prems(3) have "col k (snd x) \<notin> set (col k y # seen)" by auto
    from Cons.IH [OF refl rest this] False show ?thesis
      by (simp add: Cons.prems(1) p)
  qed
qed

lemma distinct_index_year_filtered:
  "distinct (index df) \<Longrightarrow> distinct (index (year_filtered df))"
  by (simp add: year_filtered_def drop_other_years_def drop_labels_def dropna_def
      distinct_index_filter)

section \<open>Properties of the chunks of a file\<close>

lemma label_from_chunk:
  "ch \<in> set (label_from k h gs) \<Longrightarrow>
   header ch = h \<and> distinct (index (rows ch)) \<and>
   (\<forall>(i, r) \<in> set (rows ch). \<exists>cells. r = zip h cells)"
proof (induction k h gs rule: label_from.induct)
  case (1 k h)
  then show ?case by simp
next
  case (2 k h g gs)
  from 2(2) have "ch = \<lparr>header = h, rows = enumerate k (map (zip h) g)\<rparr> \<or>
      ch \<in> set (label_from (k + length g) h gs)"
    by simp
  then show ?case
  proof
    assume ch: "ch = \<lparr>header = h, rows = enumerate k (map (zip h) g)\<rparr>"
    have "\<forall>(i, r) \<in> set (enumerate k (map (zip h) g)). \<exists>cells. r = zip h cells"
    proof (clarify)
      fix i r assume "(i, r) \<in> set (enumerate k (map (zip h) g))"
      then have "r \<in> set (map (zip h) g)"
        by (auto simp: in_set_enumerate_eq)
      then show "\<exists>cells. r = zip h cells" by auto
    qed
    with ch show ?thesis by (simp add: index_def)
  next
    assume "ch \<in> set (label_from (k + length g) h gs)"
    then show ?thesis by (rule 2(1))
  qed
qed

lemma read_csv_chunk:
  assumes "ch \<in> set (read_csv f)"
  shows "header ch = file_header f" and "distinct (index (rows ch))"
    and "\<forall>(i, r) \<in> set (rows ch). \<exists>cells. r = zip (file_header f) cells"
proof -
  have "header ch = file_header f \<and> distinct (index (rows ch)) \<and>
      (\<forall>(i, r) \<in> set (rows ch). \<exists>cells. r = zip (file_header f) cells)"
  proof (cases "groups f = []")
    case True
    with assms show ?thesis by (simp add: read_csv_def index_def)
  next
    case False
    with assms show ?thesis by (simp add: read_csv_def label_from_chunk)
  qed
  then show "header ch = file_header f" and "distinct (index (rows ch))"
    and "\<forall>(i, r) \<in> set (rows ch). \<exists>cells. r = zip (file_header f) cells"
    by simp_all
qed

section \<open>Properties of the transform\<close>


lemma renamed_source:
  "(i, r') \<in> set (renamed df) \<Longrightarrow>
   \<exists>r. (i, r) \<in> set df \<and> col ''age'' r' = col ''edad'' r \<and>
     col ''registration_date'' r' = col ''fecha_apertura'' r"
  by (auto simp: renamed_def rename_def select_columns_def columns_def rename_table_def
      rename_label_def col_def)




lemma transform_not_object:
  "\<not> object_dtype ''fecha_apertura'' ch \<Longrightarrow> transform ch = Inl AttributeError"
  by (simp add: transform_def)





section \<open>Properties of the load loop\<close>



lemma to_sql_nothing: "to_sql [] s = s"
  by (simp add: to_sql_def)

lemma load_chunks_appends_nothing:
  "\<forall>ch \<in> set chs. transform ch = Inr [] \<or> transform ch = Inl AttributeError \<Longrightarrow>
   fst (load_chunks chs s) = s \<and>
   (snd (load_chunks chs s) = None \<or> snd (load_chunks chs s) = Some AttributeError)"
  by (induction chs) (auto simp: to_sql_nothing)

lemma load_chunks_nothing:
  "\<forall>ch \<in> set chs. transform ch = Inr [] \<Longrightarrow> load_chunks chs s = (s, None)"
  by (induction chs) (simp_all add: to_sql_nothing)

lemma delete_duplicates_empty: "delete_duplicates [] = []"
  by (simp add: delete_duplicates_def)

section \<open>A file without one of the columns\<close>

lemma col_absent: "c \<notin> set h \<Longrightarrow> col c (zip h cells) = NaN"
proof -
  assume "c \<notin> set h"
  then have "c \<notin> fst ` set (zip h cells)"
    by (auto dest: set_zip_leftD)
  then have "map_of (zip h cells) c = None"
    by (simp add: map_of_eq_None_iff)
  then show ?thesis by (simp add: col_def)
qed

lemma col_selected: "c \<in> set cs \<Longrightarrow> col c (map (\<lambda>c. (c, col c r)) cs) = col c r"
  by (induction cs) (auto simp: col_def)

lemma select_columns_rows:
  "(i, r') \<in> set (select_columns cs df) \<Longrightarrow>
   \<exists>r. (i, r) \<in> set df \<and> r' = map (\<lambda>c. (c, col c r)) cs"
  by (auto simp: select_columns_def)

lemma absent_column_missing:
  assumes "c \<in> set columns" and "c \<notin> set (file_header f)"
    and "ch \<in> set (read_csv f)" and "(i, r') \<in> set (select_columns columns (rows ch))"
  shows "col c r' = NaN"
proof -
  from assms(4) obtain r where r: "(i, r) \<in> set (rows ch)" "r' = map (\<lambda>c. (c, col c r)) columns"
    by (blast dest: select_columns_rows)
  from read_csv_chunk(3) [OF assms(3)] r(1) obtain cells where "r = zip (file_header f) cells"
    by blast
  with assms(2) have "col c r = NaN" by (simp add: col_absent)
  with assms(1) r(2) show ?thesis by (simp add: col_selected)
qed

lemma chunk_filters_no_age:
  assumes "\<forall>(i, r) \<in> set df. col ''age'' r = NaN"
  shows "chunk_filters df = []"
proof -
  let ?x = "drop_zero_state (drop_duplicates ''covid_case_csv_id'' (year_filtered df))"
  have "set ?x \<subseteq> set df"
    unfolding drop_zero_state_def
    using set_drop_labels set_drop_duplicates set_year_filtered by blast
  with assms have "\<forall>(i, r) \<in> set ?x. col ''age'' r = NaN" by blast
  then show ?thesis
    unfolding chunk_filters_def dropna_def by (auto simp: filter_empty_conv)
qed

lemma chunk_filters_without_edad:
  assumes "''edad'' \<notin> set (file_header f)" and "ch \<in> set (read_csv f)"
  shows "chunk_filters (renamed (rows ch)) = []"
proof -
  have "\<forall>(i, r') \<in> set (renamed (rows ch)). col ''age'' r' = NaN"
  proof (clarify)
    fix i r' assume "(i, r') \<in> set (renamed (rows ch))"
    then obtain r where r: "(i, r) \<in> set (rows ch)" "col ''age'' r' = col ''edad'' r"
      by (blast dest: renamed_source)
    from read_csv_chunk(3) [OF assms(2)] r(1) obtain cells where "r = zip (file_header f) cells"
      by blast
    with assms(1) r(2) show "col ''age'' r' = NaN" by (simp add: col_absent)
  qed
  then show ?thesis by (rule chunk_filters_no_age)
qed

lemma transform_without_edad:
  assumes "''edad'' \<notin> set (file_header f)" and "ch \<in> set (read_csv f)"
  shows "transform ch = (if object_dtype ''fecha_apertura'' ch then Inr [] else Inl AttributeError)"
  by (simp add: transform_def chunk_filters_without_edad [OF assms])

lemma etl_cases_done:
  "load_chunks (read_csv f) (truncate_case s) = (s', None) \<Longrightarrow>
   etl_cases f s = (s'\<lparr>covid19_case := delete_duplicates (covid19_case s')\<rparr>, None)"
  by (simp add: etl_cases_def)

lemma etl_cases_aborted:
  "load_chunks (read_csv f) (truncate_case s) = (s', Some e) \<Longrightarrow> etl_cases f s = (s', Some e)"
  by (simp add: etl_cases_def)

lemma etl_cases_without_edad:
  assumes "''edad'' \<notin> set (file_header f)"
  shows "covid19_case (fst (etl_cases f s)) = []"
    and "snd (etl_cases f s) = None \<or> snd (etl_cases f s) = Some AttributeError"
    and "\<forall>ch \<in> set (read_csv f). object_dtype ''fecha_apertura'' ch \<Longrightarrow>
      etl_cases f s = (truncate_case s, None)"
proof -
  let ?l = "load_chunks (read_csv f) (truncate_case s)"
  have each: "\<forall>ch \<in> set (read_csv f). transform ch = Inr [] \<or> transform ch = Inl AttributeError"
    using transform_without_edad [OF assms] by auto
  from load_chunks_appends_nothing [OF each, of "truncate_case s"]
  have l: "fst ?l = truncate_case s" "snd ?l = None \<or> snd ?l = Some AttributeError"
    by simp_all
  have empty: "truncate_case s\<lparr>covid19_case := delete_duplicates (covid19_case (truncate_case s))\<rparr> =
      truncate_case s"
    by (simp add: truncate_case_def delete_duplicates_empty)
  from l(2) have "etl_cases f s = (truncate_case s, None) \<or>
      etl_cases f s = (truncate_case s, Some AttributeError)"
  proof
    assume "snd ?l = None"
    with l(1) have "?l = (truncate_case s, None)" by (simp add: prod_eq_iff)
    from etl_cases_done [OF this] show ?thesis by (simp add: empty)
  next
    assume "snd ?l = Some AttributeError"
    with l(1) have "?l = (truncate_case s, Some AttributeError)" by (simp add: prod_eq_iff)
    from etl_cases_aborted [OF this] show ?thesis by simp
  qed
  then show "covid19_case (fst (etl_cases f s)) = []"
    and "snd (etl_cases f s) = None \<or> snd (etl_cases f s) = Some AttributeError"
    by (auto simp: truncate_case_def)
  assume "\<forall>ch \<in> set (read_csv f). object_dtype ''fecha_apertura'' ch"
  then have "\<forall>ch \<in> set (read_csv f). transform ch = Inr []"
    using transform_without_edad [OF assms] by auto
  then have "?l = (truncate_case s, None)" by (rule load_chunks_nothing)
  from etl_cases_done [OF this] show "etl_cases f s = (truncate_case s, None)"
    by (simp add: empty)
qed

subsection \<open>The example files, evaluated\<close>

lemma scenario_read: "read_csv scenario_file = [scenario_chunk]"
  by code_simp




lemma second_chunk_transform: "transform second_chunk = Inl ValueError"
  by code_simp





lemma file_without_edad_run: "etl_cases file_without_edad empty_sink = (empty_sink, None)"
  by code_simp










section \<open>Properties of the download\<close>

lemma download_succeeds:
  "download_from_aws (\<lambda>b k p. Inr ()) bucket s3_file local_file = Inr True"
  by (simp add: download_from_aws_def)

lemma download_file_not_found:
  "download_from_aws (\<lambda>b k p. Inl FileNotFoundError) bucket s3_file local_file = Inr False"
  by (simp add: download_from_aws_def except_clause_def builtin_names_def class_name_def)

section \<open>Properties of the cleanup\<close>

lemma sql_eq_group:
  "csv_id a \<noteq> NaN \<Longrightarrow> filter (\<lambda>b. sql_eq (csv_id b) (csv_id a)) t = group_of (csv_id a) t"
  unfolding group_of_def by (rule filter_cong) (auto simp: sql_eq_def)

lemma sql_eq_null: "csv_id a = NaN \<Longrightarrow> filter (\<lambda>b. sql_eq (csv_id b) (csv_id a)) t = []"
  by (simp add: sql_eq_def)

lemma duplicate_groups_iff:
  "(m, v) \<in> set (duplicate_groups t) \<longleftrightarrow>
     v \<in> csv_id ` set t \<and> 1 < length (group_of v t) \<and> m = Min (set (map fst (group_of v t)))"
  by (auto simp: duplicate_groups_def)

lemma matched_iff:
  assumes "a \<in> set t"
  shows "list_ex (\<lambda>b. sql_eq (csv_id a) (snd b) \<and> fst a \<noteq> fst b) (duplicate_groups t) \<longleftrightarrow>
     spec_residual_duplicate t a"
proof (cases "csv_id a = NaN")
  case True
  then show ?thesis
    by (simp add: spec_residual_duplicate_def sql_eq_null list_ex_iff sql_eq_def)
next
  case False
  have "list_ex (\<lambda>b. sql_eq (csv_id a) (snd b) \<and> fst a \<noteq> fst b) (duplicate_groups t) \<longleftrightarrow>
      (\<exists>m. (m, csv_id a) \<in> set (duplicate_groups t) \<and> fst a \<noteq> m)"
    using False by (force simp: list_ex_iff sql_eq_def)
  also have "\<dots> \<longleftrightarrow> 1 < length (group_of (csv_id a) t) \<and>
      fst a \<noteq> Min (set (map fst (group_of (csv_id a) t)))"
    using assms by (auto simp: duplicate_groups_iff)
  finally show ?thesis
    using False by (simp add: spec_residual_duplicate_def sql_eq_group)
qed

lemma delete_duplicates_residual:
  "delete_duplicates t = filter (\<lambda>a. \<not> spec_residual_duplicate t a) t"
  unfolding delete_duplicates_def by (rule filter_cong) (simp_all add: matched_iff)

lemma residual_after_delete:
  assumes a: "a \<in> set (delete_duplicates t)"
  shows "\<not> spec_residual_duplicate (delete_duplicates t) a"
proof
  let ?t' = "delete_duplicates t"
  let ?G = "\<lambda>x s. filter (\<lambda>b. sql_eq (csv_id b) (csv_id x)) s"
  assume R: "spec_residual_duplicate ?t' a"
  then have len': "1 < length (?G a ?t')"
    and notmin: "fst a \<noteq> Min (set (map fst (?G a ?t')))"
    by (simp_all add: spec_residual_duplicate_def)
  have t': "?t' = filter (\<lambda>a. \<not> spec_residual_duplicate t a) t"
    by (rule delete_duplicates_residual)
  have sub: "?G x ?t' = filter (\<lambda>a. \<not> spec_residual_duplicate t a) (?G x t)" for x
    unfolding t' by (simp add: conj_commute)
  have "length (?G a ?t') \<le> length (?G a t)"
    unfolding sub by (rule length_filter_le)
  with len' have len: "1 < length (?G a t)" by simp
  define m where "m = Min (set (map fst (?G a t)))"
  have key: "fst b = m" if "b \<in> set (?G a ?t')" for b
  proof -
    from that have b: "b \<in> set t" "\<not> spec_residual_duplicate t b" "sql_eq (csv_id b) (csv_id a)"
      unfolding sub by auto
    from b(3) have "?G b t = ?G a t"
      by (intro filter_cong) (auto simp: sql_eq_def)
    with b(2) len show ?thesis
      by (simp add: spec_residual_duplicate_def m_def)
  qed
  from len' have ne: "?G a ?t' \<noteq> []" by auto
  have "set (map fst (?G a ?t')) = {m}"
  proof
    show "set (map fst (?G a ?t')) \<subseteq> {m}" using key by auto
    from ne obtain b where "b \<in> set (?G a ?t')" by (cases "?G a ?t'") auto
    with key [OF this] show "{m} \<subseteq> set (map fst (?G a ?t'))" by force
  qed
  then have min: "Min (set (map fst (?G a ?t'))) = m" by simp
  from len' have "csv_id a \<noteq> NaN"
    by (auto simp: sql_eq_def)
  with a have "a \<in> set (?G a ?t')" by (simp add: sql_eq_def)
  from key [OF this] min notmin show False by simp
qed

lemma scenario_cleanup:
  "delete_duplicates scenario_table =
     [(10, [(''covid_case_csv_id'', Str ''A'')]), (12, [(''covid_case_csv_id'', Str ''B'')])]"
  by code_simp

lemma scenario_cleanup_spec:
  "filter (\<lambda>a. \<not> spec_residual_duplicate scenario_table a) scenario_table =
     [(10, [(''covid_case_csv_id'', Str ''A'')]), (12, [(''covid_case_csv_id'', Str ''B'')])]"
  by code_simp

section \<open>The claims\<close>

text \<open>
  C1. The claim fails on the code for a chunk in which one registration state is not a
  number. The reader then hands out the states of the chunk as strings, the comparison
  \<^verbatim>\<open>== 0\<close> of line 217 holds of none of them, and the record whose state is 0 passes
  every filter and is written to the table.
\<close>

theorem text_state_zero_is_appended:
  "etl_cases text_state_file empty_sink =
     (\<lparr>covid19_case =
         [(1, target_row (Num 1) NaN (Num 45) (Str ''2022-01-01'') (Str ''0''))],
       next_covid_case_id = 2\<rparr>, None)"
  by code_simp

text \<open>
  C2. For a chunk of the reader whose transform succeeds: no two output records have the
  same identifier; each output record is, up to the converted age, a row that has no row
  with the same identifier before it among the rows with an identifier and a date of the
  year; and every such first row is in the output with its age converted, unless its
  registration state is the number 0 or its age is missing. So of the rows that share an
  identifier the first is the one kept, and the others are dropped.
\<close>

theorem chunk_identifiers_unique_first_kept:
  assumes "ch \<in> set (read_csv f)" and "transform ch = Inr out"
  shows "distinct (map (\<lambda>(i, r). col ''covid_case_csv_id'' r) out) \<and>
    (\<forall>(i, r) \<in> set out. \<exists>pre r0 post.
        spec_year_filter (spec_identifier_filter (renamed (rows ch))) = pre @ (i, r0) # post \<and>
        (\<forall>p \<in> set pre. col ''covid_case_csv_id'' (snd p) \<noteq> col ''covid_case_csv_id'' r0) \<and>
        (\<exists>v. astype_int64 (col ''age'' r0) = Inr v \<and> r = AList.update ''age'' v r0)) \<and>
    (\<forall>pre i r0 post.
        spec_year_filter (spec_identifier_filter (renamed (rows ch))) = pre @ (i, r0) # post \<and>
        (\<forall>p \<in> set pre. col ''covid_case_csv_id'' (snd p) \<noteq> col ''covid_case_csv_id'' r0) \<and>
        \<not> is_zero (col ''registration_state_id'' r0) \<and> col ''age'' r0 \<noteq> NaN \<longrightarrow>
        (\<exists>v. astype_int64 (col ''age'' r0) = Inr v \<and>
             (i, AList.update ''age'' v r0) \<in> set out))"
proof -
  let ?y = "spec_year_filter (spec_identifier_filter (renamed (rows ch)))"
  let ?d = "drop_duplicates ''covid_case_csv_id'' ?y"
  note conv = transform_Inr [OF assms(2), THEN conjunct2]
  have dist: "distinct (index (renamed (rows ch)))"
    using read_csv_chunk(2) [OF assms(1)] by (simp add: index_renamed)
  then have y: "year_filtered (renamed (rows ch)) = ?y"
    by (rule year_filtered_spec)
  from dist have "distinct (index (year_filtered (renamed (rows ch))))"
    by (rule distinct_index_year_filtered)
  then have "distinct (index ?y)" by (simp add: y)
  then have dd: "distinct (index ?d)"
    unfolding drop_duplicates_spec by (rule distinct_index_spec_dedup)
  have "map (\<lambda>(i, r). col ''covid_case_csv_id'' r) out =
      map (\<lambda>(i, r). col ''covid_case_csv_id'' r) (chunk_filters (renamed (rows ch)))"
    using conv by (rule astype_column_keys) simp
  then have one: "distinct (map (\<lambda>(i, r). col ''covid_case_csv_id'' r) out)"
    by (simp add: chunk_filters_distinct)
  have two: "\<forall>(i, r) \<in> set out. \<exists>pre r0 post.
        ?y = pre @ (i, r0) # post \<and>
        (\<forall>p \<in> set pre. col ''covid_case_csv_id'' (snd p) \<noteq> col ''covid_case_csv_id'' r0) \<and>
        (\<exists>v. astype_int64 (col ''age'' r0) = Inr v \<and> r = AList.update ''age'' v r0)"
  proof (clarify)
    fix i r assume "(i, r) \<in> set out"
    with conv obtain r0 v where r0: "(i, r0) \<in> set (chunk_filters (renamed (rows ch)))"
      and v: "astype_int64 (col ''age'' r0) = Inr v" and r: "r = AList.update ''age'' v r0"
      by (blast dest: astype_column_rows)
    from r0 have "(i, r0) \<in> set (drop_duplicates ''covid_case_csv_id''
        (year_filtered (renamed (rows ch))))"
      using set_chunk_filters by blast
    then have "(i, r0) \<in> set (drop_duplicates_from [] ''covid_case_csv_id'' ?y)"
      by (simp add: drop_duplicates_def y)
    from drop_duplicates_from_first [OF this] obtain pre post where
      pre: "?y = pre @ (i, r0) # post"
      "\<forall>p \<in> set pre. col ''covid_case_csv_id'' (snd p) \<noteq> col ''covid_case_csv_id'' r0"
      by (elim exE conjE)
    from v r have conv: "\<exists>v. astype_int64 (col ''age'' r0) = Inr v \<and> r = AList.update ''age'' v r0"
      by (intro exI conjI)
    from pre conv show "\<exists>pre r0 post.
        ?y = pre @ (i, r0) # post \<and>
        (\<forall>p \<in> set pre. col ''covid_case_csv_id'' (snd p) \<noteq> col ''covid_case_csv_id'' r0) \<and>
        (\<exists>v. astype_int64 (col ''age'' r0) = Inr v \<and> r = AList.update ''age'' v r0)"
      by (intro exI [of _ pre] exI [of _ r0] exI [of _ post] conjI)
  qed
  have three: "\<exists>v. astype_int64 (col ''age'' r0) = Inr v \<and>
      (i, AList.update ''age'' v r0) \<in> set out"
    if h: "?y = pre @ (i, r0) # post \<and>
        (\<forall>p \<in> set pre. col ''covid_case_csv_id'' (snd p) \<noteq> col ''covid_case_csv_id'' r0) \<and>
        \<not> is_zero (col ''registration_state_id'' r0) \<and> col ''age'' r0 \<noteq> NaN"
    for pre i r0 post
  proof -
    from h have "(i, r0) \<in> set (drop_duplicates_from [] ''covid_case_csv_id'' ?y)"
      by (intro first_row_kept [of ?y pre "(i, r0)" post]) simp_all
    then have "(i, r0) \<in> set ?d" by (simp add: drop_duplicates_def)
    with h have "(i, r0) \<in> set (drop_zero_state ?d)"
      unfolding drop_zero_state_def drop_masked_filter [OF dd] by (simp add: state_is_zero_def)
    with h have "(i, r0) \<in> set (chunk_filters (renamed (rows ch)))"
      by (simp add: chunk_filters_def dropna_def y)
    then show ?thesis
      using conv by (rule astype_column_maps)
  qed
  from one two three show ?thesis by blast
qed

theorem chunk_identifiers_unique_first_kept_witness:
  "scenario_chunk \<in> set (read_csv scenario_file) \<and>
   transform scenario_chunk = Inr scenario_output \<and>
   distinct (map (\<lambda>(i, r). col ''covid_case_csv_id'' r) scenario_output) \<and>
   length (filter (\<lambda>(i, r). col ''covid_case_csv_id'' r = Num 1)
      (spec_year_filter (spec_identifier_filter (renamed (rows scenario_chunk))))) = 2 \<and>
   (\<exists>v. astype_int64 (Str ''45'') = Inr v \<and>
      (0, AList.update ''age'' v (target_row (Num 1) (Str ''F'') (Str ''45'') (Str ''2022-01-01'') (Num 5)))
        \<in> set scenario_output)"
proof -
  have mem: "scenario_chunk \<in> set (read_csv scenario_file)"
    by (simp add: scenario_read)
  note first_kept = chunk_identifiers_unique_first_kept [OF mem scenario_transform]
  let ?y = "spec_year_filter (spec_identifier_filter (renamed (rows scenario_chunk)))"
  let ?r0 = "target_row (Num 1) (Str ''F'') (Str ''45'') (Str ''2022-01-01'') (Num 5)"
  have two: "length (filter (\<lambda>(i, r). col ''covid_case_csv_id'' r = Num 1) ?y) = 2"
    by code_simp
  have split: "?y = [] @ (0, ?r0) # tl ?y"
    by code_simp
  have fresh: "\<forall>p \<in> set []. col ''covid_case_csv_id'' (snd p) \<noteq> col ''covid_case_csv_id'' ?r0"
    by simp
  have keep: "\<not> is_zero (col ''registration_state_id'' ?r0) \<and> col ''age'' ?r0 \<noteq> NaN"
    by code_simp
  from first_kept have "distinct (map (\<lambda>(i, r). col ''covid_case_csv_id'' r) scenario_output)"
    by (elim conjE)
  moreover from first_kept have "\<forall>pre i r0 post.
        ?y = pre @ (i, r0) # post \<and>
        (\<forall>p \<in> set pre. col ''covid_case_csv_id'' (snd p) \<noteq> col ''covid_case_csv_id'' r0) \<and>
        \<not> is_zero (col ''registration_state_id'' r0) \<and> col ''age'' r0 \<noteq> NaN \<longrightarrow>
        (\<exists>v. astype_int64 (col ''age'' r0) = Inr v \<and>
             (i, AList.update ''age'' v r0) \<in> set scenario_output)"
    by (elim conjE)
  then have "\<exists>v. astype_int64 (col ''age'' ?r0) = Inr v \<and>
      (0, AList.update ''age'' v ?r0) \<in> set scenario_output"
    using split fresh keep by blast
  moreover have "col ''age'' ?r0 = Str ''45''"
    by code_simp
  ultimately show ?thesis
    using mem scenario_transform two by simp
qed

text \<open>
  C7. The five filters of the loop body, applied to their own output, change nothing.
\<close>

theorem chunk_filters_idempotent: "chunk_filters (chunk_filters df) = chunk_filters df"
proof (rule chunk_filters_fixed)
  show "\<forall>(i, r) \<in> set (chunk_filters df). col ''covid_case_csv_id'' r \<noteq> NaN \<and> \<not> other_year r \<and>
      \<not> state_is_zero r \<and> col ''age'' r \<noteq> NaN"
    using chunk_filters_rows by blast
  show "distinct (map (\<lambda>(i, r). col ''covid_case_csv_id'' r) (chunk_filters df))"
    by (rule chunk_filters_distinct)
qed

theorem chunk_filters_idempotent_witness:
  "chunk_filters (chunk_filters (renamed (rows scenario_chunk))) = chunk_filters (renamed (rows scenario_chunk)) \<and>
   length (renamed (rows scenario_chunk)) = 5 \<and> length (chunk_filters (renamed (rows scenario_chunk))) = 1"
proof -
  have "length (renamed (rows scenario_chunk)) = 5"
    by code_simp
  moreover have "length (chunk_filters (renamed (rows scenario_chunk))) = 1"
    by code_simp
  ultimately show ?thesis
    using chunk_filters_idempotent [of "renamed (rows scenario_chunk)"] by (intro conjI)
qed

text \<open>
  C5. The cleanup keeps exactly the rows that are not residual duplicates, so it deletes
  exactly the rows whose identifier is a value that another row shares and whose key is
  not the smallest of their group. On the table with rows 10 and 11 of identifier
  \<^verbatim>\<open>A\<close> and row 12 of identifier \<^verbatim>\<open>B\<close> it deletes row 11 only.
\<close>

theorem cleanup_deletes_residual_duplicates:
  "delete_duplicates t = filter (\<lambda>a. \<not> spec_residual_duplicate t a) t \<and>
   delete_duplicates scenario_table =
     [(10, [(''covid_case_csv_id'', Str ''A'')]), (12, [(''covid_case_csv_id'', Str ''B'')])]"
  using delete_duplicates_residual [of t] scenario_cleanup by (intro conjI)

theorem cleanup_deletes_residual_duplicates_witness:
  "delete_duplicates scenario_table =
     filter (\<lambda>a. \<not> spec_residual_duplicate scenario_table a) scenario_table \<and>
   filter (\<lambda>a. \<not> spec_residual_duplicate scenario_table a) scenario_table =
     [(10, [(''covid_case_csv_id'', Str ''A'')]), (12, [(''covid_case_csv_id'', Str ''B'')])] \<and>
   spec_residual_duplicate scenario_table (11, [(''covid_case_csv_id'', Str ''A'')])"
proof -
  have "spec_residual_duplicate scenario_table (11, [(''covid_case_csv_id'', Str ''A'')])"
    by code_simp
  with cleanup_deletes_residual_duplicates [of scenario_table] scenario_cleanup_spec
  show ?thesis by (intro conjI) (elim conjE, assumption)+
qed

text \<open>
  C8. Run on the table that its first run has left, the cleanup deletes nothing.
\<close>

theorem delete_duplicates_idempotent:
  "delete_duplicates (delete_duplicates t) = delete_duplicates t"
proof -
  have "delete_duplicates (delete_duplicates t) =
      filter (\<lambda>a. \<not> spec_residual_duplicate (delete_duplicates t) a) (delete_duplicates t)"
    by (rule delete_duplicates_residual)
  also have "\<dots> = delete_duplicates t"
    by (rule filter_True) (simp add: residual_after_delete)
  finally show ?thesis .
qed

theorem delete_duplicates_idempotent_witness:
  "delete_duplicates (delete_duplicates scenario_table) = delete_duplicates scenario_table \<and>
   length scenario_table = 3 \<and> length (delete_duplicates scenario_table) = 2"
proof -
  have "length scenario_table = 3"
    by (simp add: scenario_table_def)
  moreover have "length (delete_duplicates scenario_table) = 2"
    by (simp add: scenario_cleanup)
  ultimately show ?thesis
    using delete_duplicates_idempotent [of scenario_table] by (intro conjI)
qed










text \<open>
  C3, as amended. A column of the thirteen that the header of the case file does not
  have raises no error of its own and is not checked before the first chunk: the column
  selection gives it a missing value in every row of every chunk. When the column is
  \<^verbatim>\<open>edad\<close>, no record is written: the run leaves the table empty, and ends either
  without an exception or with the \<^verbatim>\<open>AttributeError\<close> of the year filter; it ends without
  an exception when the registration dates of every chunk were read as strings.
\<close>

theorem absent_column_reads_as_missing:
  "(\<forall>c \<in> set columns. c \<notin> set (file_header f) \<longrightarrow>
      (\<forall>ch \<in> set (read_csv f). \<forall>(i, r) \<in> set (select_columns columns (rows ch)). col c r = NaN)) \<and>
   (''edad'' \<notin> set (file_header f) \<longrightarrow>
      covid19_case (fst (etl_cases f s)) = [] \<and>
      (snd (etl_cases f s) = None \<or> snd (etl_cases f s) = Some AttributeError) \<and>
      ((\<forall>ch \<in> set (read_csv f). object_dtype ''fecha_apertura'' ch) \<longrightarrow>
         etl_cases f s = (truncate_case s, None)))"
proof (intro conjI ballI impI)
  fix c ch x
  assume "c \<in> set columns" "c \<notin> set (file_header f)" "ch \<in> set (read_csv f)"
    "x \<in> set (select_columns columns (rows ch))"
  then show "case x of (i, r) \<Rightarrow> col c r = NaN"
    using absent_column_missing by (cases x) auto
next
  assume "''edad'' \<notin> set (file_header f)"
  then show "covid19_case (fst (etl_cases f s)) = []"
    by (rule etl_cases_without_edad(1))
next
  assume "''edad'' \<notin> set (file_header f)"
  then show "snd (etl_cases f s) = None \<or> snd (etl_cases f s) = Some AttributeError"
    by (rule etl_cases_without_edad(2))
next
  assume "''edad'' \<notin> set (file_header f)"
    and "\<forall>ch \<in> set (read_csv f). object_dtype ''fecha_apertura'' ch"
  then show "etl_cases f s = (truncate_case s, None)"
    by (rule etl_cases_without_edad(3))
qed

theorem absent_column_reads_as_missing_witness:
  "''edad'' \<in> set columns \<and> ''edad'' \<notin> set (file_header file_without_edad) \<and>
   hd (read_csv file_without_edad) \<in> set (read_csv file_without_edad) \<and>
   col ''edad'' (snd (hd (select_columns columns (rows (hd (read_csv file_without_edad)))))) = NaN \<and>
   covid19_case (fst (etl_cases file_without_edad empty_sink)) = [] \<and>
   etl_cases file_without_edad empty_sink = (truncate_case empty_sink, None)"
proof -
  note both = absent_column_reads_as_missing [of file_without_edad empty_sink]
  have c: "''edad'' \<in> set columns"
    by (simp add: columns_def)
  have h: "''edad'' \<notin> set (file_header file_without_edad)"
    by (simp add: file_without_edad_def)
  have d: "hd (read_csv file_without_edad) \<in> set (read_csv file_without_edad)"
    by code_simp
  have r: "hd (select_columns columns (rows (hd (read_csv file_without_edad)))) \<in>
      set (select_columns columns (rows (hd (read_csv file_without_edad))))"
    by code_simp
  have o: "\<forall>ch \<in> set (read_csv file_without_edad). object_dtype ''fecha_apertura'' ch"
    by code_simp
  have "case hd (select_columns columns (rows (hd (read_csv file_without_edad)))) of
      (i, r) \<Rightarrow> col ''edad'' r = NaN"
    by (rule bspec [OF bspec [OF mp [OF bspec [OF conjunct1 [OF both] c] h] d] r])
  then have "col ''edad'' (snd (hd (select_columns columns (rows (hd (read_csv file_without_edad)))))) = NaN"
    by (simp add: case_prod_unfold)
  moreover note second = mp [OF conjunct2 [OF both] h]
  from second have "covid19_case (fst (etl_cases file_without_edad empty_sink)) = []"
    by (rule conjunct1)
  moreover from second o
  have "etl_cases file_without_edad empty_sink = (truncate_case empty_sink, None)"
    by blast
  ultimately show ?thesis using c h d by (intro conjI)
qed

text \<open>
  C3 as stated fails: the example file has no column \<^verbatim>\<open>edad\<close>, and the run on it ends
  without any exception.
\<close>

theorem no_schema_error_counterexample:
  "''edad'' \<in> set columns \<and> ''edad'' \<notin> set (file_header file_without_edad) \<and>
   etl_cases file_without_edad empty_sink = (empty_sink, None)"
proof -
  have "''edad'' \<in> set columns"
    by (simp add: columns_def)
  moreover have "''edad'' \<notin> set (file_header file_without_edad)"
    by (simp add: file_without_edad_def)
  ultimately show ?thesis
    using file_without_edad_run by (intro conjI)
qed

text \<open>
  C10. The claim fails on the code where the client reports missing credentials: the
  second \<^verbatim>\<open>except\<close> clause names \<^verbatim>\<open>NoCredentialsError\<close>, which the module never
  imports, so the call ends in \<^verbatim>\<open>NameError\<close> and returns nothing.
\<close>

theorem download_without_credentials_raises:
  "download_from_aws (\<lambda>b k p. Inl NoCredentialsError) ''bucket'' ''Covid19Casos.zip''
      ''data/Covid19Casos.zip'' = Inl (NameError ''NoCredentialsError'')"
  by (simp add: download_from_aws_def except_clause_def builtin_names_def module_names_def
      class_name_def)

end
